theory Spec2Isabelle
  imports Main
begin

section \<open>The snake chain of \<^verbatim>\<open>classes_snake.py\<close>\<close>

text \<open>
  The module defines two classes. \<^verbatim>\<open>SnakeBodyPart\<close> holds an identifier, a grid
  position and a head flag; \<^verbatim>\<open>Snake\<close> owns a Python list of body parts, the length it
  was asked for and a counter of moves. Python integers are unbounded, so every number
  is an \<open>int\<close>. The methods mutate the object in place; here each of them takes the
  object's state and returns the new one.

  The constructor creates one fresh \<^verbatim>\<open>SnakeBodyPart\<close> object per list slot and no method
  inserts, removes or reorders list entries, so no two slots of \<^verbatim>\<open>snake_body\<close> ever refer
  to the same object. A list of records (values, not references) is therefore a faithful
  picture of every chain the program itself can build.
\<close>

subsection \<open>Data\<close>

record SnakeBodyPart =
  ID :: int
  xpos :: int
  ypos :: int
  is_head :: bool

record Snake =
  snake_length :: int
  num_moves :: int
  snake_body :: "SnakeBodyPart list"

text \<open>
  Two things can be raised while a chain is driven: the \<^verbatim>\<open>IndexError\<close> of
  \<^verbatim>\<open>self.snake_body[0]\<close> on an empty list, and the \<^verbatim>\<open>Exception(f"Invalid move: {move}")\<close>
  of \<^verbatim>\<open>move_combo\<close>, which carries its message. Since the object is mutated in place, a
  raise leaves behind the state reached so far; the error value carries that state.
\<close>

datatype error = IndexError | Exception string

type_synonym outcome = "(error \<times> Snake) + Snake"

subsection \<open>\<^verbatim>\<open>SnakeBodyPart.__init__\<close>\<close>

text \<open>
  \<^verbatim>\<open>initial_pos\<close> is a two-element list literal at both call sites (\<^verbatim>\<open>[0, 0]\<close> and
  \<^verbatim>\<open>[0, -i]\<close>); it is a pair here. The default \<^verbatim>\<open>is_head=False\<close> is passed explicitly.
\<close>

definition SnakeBodyPart_init :: "int \<Rightarrow> int \<times> int \<Rightarrow> bool \<Rightarrow> SnakeBodyPart" where
  "SnakeBodyPart_init i initial_pos h =
     \<lparr>ID = i, xpos = fst initial_pos, ypos = snd initial_pos, is_head = h\<rparr>"

subsection \<open>\<^verbatim>\<open>Snake.__init__\<close> and \<^verbatim>\<open>Snake.__initialise_snake_body\<close>\<close>

text \<open>
  The loop \<^verbatim>\<open>for i in range(1, self.snake_length)\<close> appends one part per \<open>i\<close> with
  \<open>1 \<le> i < snake_length\<close>; it runs zero times when \<open>snake_length \<le> 1\<close>.
\<close>

function initialise_loop :: "int \<Rightarrow> int \<Rightarrow> SnakeBodyPart list \<Rightarrow> SnakeBodyPart list" where
  "initialise_loop i n body =
     (if i < n
      then initialise_loop (i + 1) n (body @ [SnakeBodyPart_init i (0, - i) False])
      else body)"
  by pat_completeness auto
termination
  by (relation "measure (\<lambda>(i, n, body). nat (n - i))") auto

declare initialise_loop.simps [simp del]

definition initialise_snake_body :: "Snake \<Rightarrow> Snake" where
  "initialise_snake_body s =
     (let snake_head = SnakeBodyPart_init 0 (0, 0) True
      in s\<lparr>snake_body := initialise_loop 1 (snake_length s) [snake_head]\<rparr>)"

definition Snake_init :: "int \<Rightarrow> Snake" where
  "Snake_init n =
     initialise_snake_body \<lparr>snake_length = n, num_moves = 0, snake_body = []\<rparr>"

subsection \<open>\<^verbatim>\<open>Snake.update_body_positions\<close>\<close>

text \<open>
  \<^verbatim>\<open>for i in range(len(self.snake_body) - 1, 0, -1)\<close> visits
  \<open>i = len - 1, len - 2, \<dots>, 1\<close> and nothing at all when the list has fewer than two
  entries (for the empty list \<open>len - 1\<close> is \<open>-1\<close> in Python and \<open>0\<close> on \<open>nat\<close>:
  no iteration either way). The two assignments of the loop body are kept apart, in the
  order of the source. Every index read or written lies inside the list, so the loop
  cannot raise.
\<close>

fun update_loop :: "nat \<Rightarrow> SnakeBodyPart list \<Rightarrow> SnakeBodyPart list" where
  "update_loop 0 body = body"
| "update_loop (Suc j) body =
     (let i = Suc j;
          body1 = body[i := (body ! i)\<lparr>xpos := xpos (body ! (i - 1))\<rparr>];
          body2 = body1[i := (body1 ! i)\<lparr>ypos := ypos (body1 ! (i - 1))\<rparr>]
      in update_loop j body2)"

definition update_body_positions :: "Snake \<Rightarrow> Snake" where
  "update_body_positions s =
     s\<lparr>snake_body := update_loop (length (snake_body s) - 1) (snake_body s)\<rparr>"

subsection \<open>The four moves\<close>

text \<open>
  Each move shifts the body, increments the counter and then changes the head through
  \<^verbatim>\<open>self.snake_body[0]\<close>, which raises \<^verbatim>\<open>IndexError\<close> on an empty list, after the counter
  has already been incremented.
\<close>

definition move_right :: "Snake \<Rightarrow> outcome" where
  "move_right s =
     (let s1 = update_body_positions s;
          s2 = s1\<lparr>num_moves := num_moves s1 + 1\<rparr>
      in case snake_body s2 of
           [] \<Rightarrow> Inl (IndexError, s2)
         | h # t \<Rightarrow> Inr (s2\<lparr>snake_body := h\<lparr>xpos := xpos h + 1\<rparr> # t\<rparr>))"

definition move_left :: "Snake \<Rightarrow> outcome" where
  "move_left s =
     (let s1 = update_body_positions s;
          s2 = s1\<lparr>num_moves := num_moves s1 + 1\<rparr>
      in case snake_body s2 of
           [] \<Rightarrow> Inl (IndexError, s2)
         | h # t \<Rightarrow> Inr (s2\<lparr>snake_body := h\<lparr>xpos := xpos h - 1\<rparr> # t\<rparr>))"

definition move_up :: "Snake \<Rightarrow> outcome" where
  "move_up s =
     (let s1 = update_body_positions s;
          s2 = s1\<lparr>num_moves := num_moves s1 + 1\<rparr>
      in case snake_body s2 of
           [] \<Rightarrow> Inl (IndexError, s2)
         | h # t \<Rightarrow> Inr (s2\<lparr>snake_body := h\<lparr>ypos := ypos h + 1\<rparr> # t\<rparr>))"

definition move_down :: "Snake \<Rightarrow> outcome" where
  "move_down s =
     (let s1 = update_body_positions s;
          s2 = s1\<lparr>num_moves := num_moves s1 + 1\<rparr>
      in case snake_body s2 of
           [] \<Rightarrow> Inl (IndexError, s2)
         | h # t \<Rightarrow> Inr (s2\<lparr>snake_body := h\<lparr>ypos := ypos h - 1\<rparr> # t\<rparr>))"

subsection \<open>\<^verbatim>\<open>Snake.move_combo\<close>\<close>

text \<open>
  The loop body of \<^verbatim>\<open>move_combo\<close> dispatches on the token by string comparison, in the
  order of the source, and raises on any other token before touching the object.
  \<^verbatim>\<open>tqdm\<close> only wraps the iteration in a progress bar. \<^verbatim>\<open>plot_snake_position\<close> draws with
  numpy and matplotlib and writes a file; it reads the chain and never writes it. It is
  a parameter here: a function that says whether drawing the given state raised. It is
  called only when \<^verbatim>\<open>plot_moves\<close> is true; the default is false.
\<close>

definition perform_move :: "string \<Rightarrow> Snake \<Rightarrow> outcome" where
  "perform_move move s =
     (if move = ''right'' then move_right s
      else if move = ''left'' then move_left s
      else if move = ''up'' then move_up s
      else if move = ''down'' then move_down s
      else Inl (Exception (''Invalid move: '' @ move), s))"

fun move_combo :: "(Snake \<Rightarrow> error option) \<Rightarrow> Snake \<Rightarrow> string list \<Rightarrow> bool \<Rightarrow> outcome" where
  "move_combo plot_snake_position s [] plot_moves = Inr s"
| "move_combo plot_snake_position s (move # move_tuple) plot_moves =
     (case perform_move move s of
        Inl err \<Rightarrow> Inl err
      | Inr s' \<Rightarrow>
          (if plot_moves
           then (case plot_snake_position s' of
                   Some e \<Rightarrow> Inl (e, s')
                 | None \<Rightarrow> move_combo plot_snake_position s' move_tuple plot_moves)
           else move_combo plot_snake_position s' move_tuple plot_moves))"

subsection \<open>Vocabulary of the properties\<close>

text \<open>The position of a body part, and the positions of a whole chain, head first.\<close>

definition pos :: "SnakeBodyPart \<Rightarrow> int \<times> int" where
  "pos p = (xpos p, ypos p)"

definition positions :: "Snake \<Rightarrow> (int \<times> int) list" where
  "positions s = map pos (snake_body s)"

text \<open>The four tokens \<^verbatim>\<open>move_combo\<close> recognises.\<close>

definition valid_move :: "string \<Rightarrow> bool" where
  "valid_move move \<longleftrightarrow> move = ''right'' \<or> move = ''left'' \<or> move = ''up'' \<or> move = ''down''"

text \<open>Calling a second method on the object a first call returned normally from.\<close>

definition and_then :: "outcome \<Rightarrow> (Snake \<Rightarrow> outcome) \<Rightarrow> outcome" where
  "and_then r f = (case r of Inl err \<Rightarrow> Inl err | Inr s \<Rightarrow> f s)"

text \<open>
  The simultaneous shift, written from the specification's words rather than from the
  loop: the head keeps its position and every later segment receives the position its
  predecessor had before the shift. It is the reference the loop is compared with.
\<close>

definition shift_simultaneous :: "SnakeBodyPart list \<Rightarrow> SnakeBodyPart list" where
  "shift_simultaneous body =
     map (\<lambda>i. if i = 0 then body ! i
               else (body ! i)\<lparr>xpos := xpos (body ! (i - 1)), ypos := ypos (body ! (i - 1))\<rparr>)
         [0..<length body]"

text \<open>
  The state of the object once a call is over, whether it returned or raised.
\<close>

definition final_state :: "outcome \<Rightarrow> Snake" where
  "final_state r = (case r of Inl (err, s) \<Rightarrow> s | Inr s \<Rightarrow> s)"

text \<open>
  A closed form of one whole move by the vector \<open>(dx, dy)\<close>, used to reason about the
  four methods at once: counter plus one, head translated, every other segment on its
  predecessor's old position.
\<close>

definition after_move :: "int \<Rightarrow> int \<Rightarrow> Snake \<Rightarrow> Snake" where
  "after_move dx dy s =
     (let body = snake_body s
      in s\<lparr>num_moves := num_moves s + 1,
           snake_body :=
             map (\<lambda>i. if i = 0
                       then (body ! i)\<lparr>xpos := xpos (body ! i) + dx, ypos := ypos (body ! i) + dy\<rparr>
                       else (body ! i)\<lparr>xpos := xpos (body ! (i - 1)),
                                       ypos := ypos (body ! (i - 1))\<rparr>)
                 [0..<length body]\<rparr>)"

text \<open>
  How far segment \<open>i\<close> has moved between two states, whether a displacement is a unit
  vector, and the indices of the segments displaced by a unit vector.
\<close>

definition displacement :: "Snake \<Rightarrow> Snake \<Rightarrow> nat \<Rightarrow> int \<times> int" where
  "displacement s s' i =
     (xpos (snake_body s' ! i) - xpos (snake_body s ! i),
      ypos (snake_body s' ! i) - ypos (snake_body s ! i))"

definition unit_vector :: "int \<times> int \<Rightarrow> bool" where
  "unit_vector v \<longleftrightarrow> \<bar>fst v\<bar> + \<bar>snd v\<bar> = 1"

definition unit_displaced :: "Snake \<Rightarrow> Snake \<Rightarrow> nat list" where
  "unit_displaced s s' =
     filter (\<lambda>i. unit_vector (displacement s s' i)) [0..<length (snake_body s)]"

section \<open>Evaluating the constructor\<close>

lemma initialise_loop_closed:
  "initialise_loop i n body =
     body @ map (\<lambda>j. SnakeBodyPart_init j (0, - j) False) [i..n - 1]"
proof (induction i n body rule: initialise_loop.induct)
  case (1 i n body)
  show ?case
  proof (cases "i < n")
    case True
    have "[i..n - 1] = i # [i + 1..n - 1]"
      using True by (simp add: upto_rec1)
    then show ?thesis
      using True 1 by (subst initialise_loop.simps) simp
  next
    case False
    then show ?thesis by (subst initialise_loop.simps) simp
  qed
qed

lemma Snake_init_body:
  "snake_body (Snake_init n) =
     \<lparr>ID = 0, xpos = 0, ypos = 0, is_head = True\<rparr>
       # map (\<lambda>j. \<lparr>ID = j, xpos = 0, ypos = - j, is_head = False\<rparr>) [1..n - 1]"
  by (simp add: Snake_init_def initialise_snake_body_def initialise_loop_closed
      SnakeBodyPart_init_def)

lemma Snake_init_fields:
  "num_moves (Snake_init n) = 0" "snake_length (Snake_init n) = n"
  by (simp_all add: Snake_init_def initialise_snake_body_def)

lemma Snake_init_3:
  "Snake_init 3 =
     \<lparr>snake_length = 3, num_moves = 0,
      snake_body = [\<lparr>ID = 0, xpos = 0, ypos = 0, is_head = True\<rparr>,
                    \<lparr>ID = 1, xpos = 0, ypos = - 1, is_head = False\<rparr>,
                    \<lparr>ID = 2, xpos = 0, ypos = - 2, is_head = False\<rparr>]\<rparr>"
  by (simp add: Snake_init_def initialise_snake_body_def initialise_loop.simps
      SnakeBodyPart_init_def)

section \<open>The body shift\<close>

lemma update_loop_length: "length (update_loop i body) = length body"
  by (induction i arbitrary: body) (simp_all add: Let_def)

lemma update_loop_nth:
  "i < length body \<Longrightarrow> k < length body \<Longrightarrow>
   update_loop i body ! k =
     (if 1 \<le> k \<and> k \<le> i
      then (body ! k)\<lparr>xpos := xpos (body ! (k - 1)), ypos := ypos (body ! (k - 1))\<rparr>
      else body ! k)"
proof (induction i arbitrary: body)
  case 0
  then show ?case by simp
next
  case (Suc j)
  let ?new = "(body ! Suc j)\<lparr>xpos := xpos (body ! j), ypos := ypos (body ! j)\<rparr>"
  let ?b = "body[Suc j := ?new]"
  let ?copy = "\<lambda>b. (b ! k)\<lparr>xpos := xpos (b ! (k - 1)), ypos := ypos (b ! (k - 1))\<rparr>"
  have step: "update_loop (Suc j) body = update_loop j ?b"
    using Suc.prems by (simp add: Let_def)
  have len: "j < length ?b" "k < length ?b"
    using Suc.prems by simp_all
  have IH: "update_loop j ?b ! k = (if 1 \<le> k \<and> k \<le> j then ?copy ?b else ?b ! k)"
    using Suc.IH [OF len] .
  consider (below) "1 \<le> k" "k \<le> j" | (at) "k = Suc j" | (outside) "k = 0 \<or> Suc j < k"
    by arith
  then have "update_loop j ?b ! k = (if 1 \<le> k \<and> k \<le> Suc j then ?copy body else body ! k)"
  proof cases
    case below
    then have "k - 1 \<noteq> Suc j" "k \<noteq> Suc j" by arith+
    then have "?b ! k = body ! k" "?b ! (k - 1) = body ! (k - 1)" by simp_all
    then have "?copy ?b = ?copy body" by simp
    moreover have "update_loop j ?b ! k = ?copy ?b" using IH below by simp
    ultimately show ?thesis using below by simp
  next
    case at
    have "update_loop j ?b ! k = ?b ! k" using IH at by simp
    also have "\<dots> = ?new" using at Suc.prems by simp
    finally show ?thesis using at by simp
  next
    case outside
    then have "k \<noteq> Suc j" by arith
    then have "?b ! k = body ! k" by simp
    moreover have "update_loop j ?b ! k = ?b ! k" using IH outside by auto
    ultimately show ?thesis using outside by auto
  qed
  then show ?case by (simp only: step)
qed

lemma update_loop_simultaneous:
  "update_loop (length body - 1) body = shift_simultaneous body"
proof (cases "body = []")
  case True
  then show ?thesis by (simp add: shift_simultaneous_def)
next
  case False
  then have lt: "length body - 1 < length body" by simp
  show ?thesis
  proof (rule nth_equalityI)
    show "length (update_loop (length body - 1) body) = length (shift_simultaneous body)"
      by (simp add: update_loop_length shift_simultaneous_def)
  next
    fix k assume "k < length (update_loop (length body - 1) body)"
    then have k: "k < length body" by (simp add: update_loop_length)
    show "update_loop (length body - 1) body ! k = shift_simultaneous body ! k"
      using k update_loop_nth [OF lt k] by (auto simp add: shift_simultaneous_def)
  qed
qed

lemma shift_simultaneous_Cons:
  "shift_simultaneous (h # t) = h # tl (shift_simultaneous (h # t))"
  by (simp add: shift_simultaneous_def upt_conv_Cons)

lemma update_body_positions_eq:
  "update_body_positions s = s\<lparr>snake_body := shift_simultaneous (snake_body s)\<rparr>"
  by (simp only: update_body_positions_def update_loop_simultaneous)

lemma update_body_positions_single:
  "snake_body s = [h] \<Longrightarrow> update_body_positions s = s"
  by (simp add: update_body_positions_def)

section \<open>One move, in closed form\<close>

lemma after_move_body_Cons:
  "snake_body s = h # t \<Longrightarrow>
   snake_body (after_move dx dy s) =
     h\<lparr>xpos := xpos h + dx, ypos := ypos h + dy\<rparr> # tl (shift_simultaneous (h # t))"
  by (simp add: after_move_def shift_simultaneous_def upt_conv_Cons Let_def)

lemma after_move_eq:
  "snake_body s = h # t \<Longrightarrow>
   after_move dx dy s =
     s\<lparr>num_moves := num_moves s + 1,
       snake_body := h\<lparr>xpos := xpos h + dx, ypos := ypos h + dy\<rparr> # tl (shift_simultaneous (h # t))\<rparr>"
  using after_move_body_Cons [of s h t dx dy] by (simp add: after_move_def Let_def)

lemma move_right_after_move:
  assumes "snake_body s \<noteq> []" shows "move_right s = Inr (after_move 1 0 s)"
proof -
  obtain h t where ht: "snake_body s = h # t" using assms by (cases "snake_body s") auto
  have sh: "shift_simultaneous (h # t) = h # tl (shift_simultaneous (h # t))"
    by (rule shift_simultaneous_Cons)
  show ?thesis
    unfolding move_right_def update_body_positions_eq after_move_eq [OF ht] ht
    by (subst sh) (simp add: Let_def)
qed

lemma move_left_after_move:
  assumes "snake_body s \<noteq> []" shows "move_left s = Inr (after_move (- 1) 0 s)"
proof -
  obtain h t where ht: "snake_body s = h # t" using assms by (cases "snake_body s") auto
  have sh: "shift_simultaneous (h # t) = h # tl (shift_simultaneous (h # t))"
    by (rule shift_simultaneous_Cons)
  show ?thesis
    unfolding move_left_def update_body_positions_eq after_move_eq [OF ht] ht
    by (subst sh) (simp add: Let_def)
qed

lemma move_up_after_move:
  assumes "snake_body s \<noteq> []" shows "move_up s = Inr (after_move 0 1 s)"
proof -
  obtain h t where ht: "snake_body s = h # t" using assms by (cases "snake_body s") auto
  have sh: "shift_simultaneous (h # t) = h # tl (shift_simultaneous (h # t))"
    by (rule shift_simultaneous_Cons)
  show ?thesis
    unfolding move_up_def update_body_positions_eq after_move_eq [OF ht] ht
    by (subst sh) (simp add: Let_def)
qed

lemma move_down_after_move:
  assumes "snake_body s \<noteq> []" shows "move_down s = Inr (after_move 0 (- 1) s)"
proof -
  obtain h t where ht: "snake_body s = h # t" using assms by (cases "snake_body s") auto
  have sh: "shift_simultaneous (h # t) = h # tl (shift_simultaneous (h # t))"
    by (rule shift_simultaneous_Cons)
  show ?thesis
    unfolding move_down_def update_body_positions_eq after_move_eq [OF ht] ht
    by (subst sh) (simp add: Let_def)
qed

lemma four_moves_cases:
  assumes "mv \<in> {move_right, move_left, move_up, move_down}" and "snake_body s \<noteq> []"
  shows "\<exists>dx dy. mv s = Inr (after_move dx dy s)"
proof -
  from assms(1) consider "mv = move_right" | "mv = move_left" | "mv = move_up" | "mv = move_down"
    by blast
  then show ?thesis
  proof cases
    case 1 then show ?thesis using move_right_after_move [OF assms(2)] by blast
  next
    case 2 then show ?thesis using move_left_after_move [OF assms(2)] by blast
  next
    case 3 then show ?thesis using move_up_after_move [OF assms(2)] by blast
  next
    case 4 then show ?thesis using move_down_after_move [OF assms(2)] by blast
  qed
qed

lemma four_moves_empty:
  assumes "mv \<in> {move_right, move_left, move_up, move_down}" and "snake_body s = []"
  shows "mv s = Inl (IndexError, s\<lparr>num_moves := num_moves s + 1\<rparr>)"
proof -
  have u: "update_body_positions s = s"
    using assms(2) by (simp add: update_body_positions_def)
  from assms(1) consider "mv = move_right" | "mv = move_left" | "mv = move_up" | "mv = move_down"
    by blast
  then show ?thesis
  proof cases
    case 1 then show ?thesis using assms(2) by (simp add: move_right_def u)
  next
    case 2 then show ?thesis using assms(2) by (simp add: move_left_def u)
  next
    case 3 then show ?thesis using assms(2) by (simp add: move_up_def u)
  next
    case 4 then show ?thesis using assms(2) by (simp add: move_down_def u)
  qed
qed

lemma after_move_fields:
  "snake_length (after_move dx dy s) = snake_length s"
  "num_moves (after_move dx dy s) = num_moves s + 1"
  "length (snake_body (after_move dx dy s)) = length (snake_body s)"
  by (simp_all add: after_move_def Let_def)

lemma after_move_nonempty:
  "snake_body s \<noteq> [] \<Longrightarrow> snake_body (after_move dx dy s) \<noteq> []"
  using after_move_fields(3) [of dx dy s] by auto

lemma after_move_head:
  "snake_body s \<noteq> [] \<Longrightarrow>
   snake_body (after_move dx dy s) ! 0 =
     (snake_body s ! 0)\<lparr>xpos := xpos (snake_body s ! 0) + dx, ypos := ypos (snake_body s ! 0) + dy\<rparr>"
  by (simp add: after_move_def Let_def)

lemma after_move_follower:
  "1 \<le> i \<Longrightarrow> i < length (snake_body s) \<Longrightarrow>
   snake_body (after_move dx dy s) ! i =
     (snake_body s ! i)\<lparr>xpos := xpos (snake_body s ! (i - 1)), ypos := ypos (snake_body s ! (i - 1))\<rparr>"
  by (simp add: after_move_def Let_def)

lemma after_move_follower_pos:
  "1 \<le> i \<Longrightarrow> i < length (snake_body s) \<Longrightarrow>
   pos (snake_body (after_move dx dy s) ! i) = pos (snake_body s ! (i - 1))"
  by (simp add: after_move_follower pos_def)

lemma after_move_head_pos:
  "snake_body s \<noteq> [] \<Longrightarrow>
   pos (snake_body (after_move dx dy s) ! 0)
     = (xpos (snake_body s ! 0) + dx, ypos (snake_body s ! 0) + dy)"
  by (simp add: after_move_head pos_def)

lemma after_move_IDs:
  "map ID (snake_body (after_move dx dy s)) = map ID (snake_body s)"
  by (rule nth_equalityI) (simp_all add: after_move_def Let_def)

lemma after_move_is_heads:
  "map is_head (snake_body (after_move dx dy s)) = map is_head (snake_body s)"
  by (rule nth_equalityI) (simp_all add: after_move_def Let_def)

section \<open>Two moves in a row\<close>

lemma after_move_twice_head:
  assumes "snake_body s \<noteq> []"
  shows "snake_body (after_move (- dx) (- dy) (after_move dx dy s)) ! 0 = snake_body s ! 0"
proof -
  have ne: "snake_body (after_move dx dy s) \<noteq> []"
    using assms by (rule after_move_nonempty)
  show ?thesis
    by (simp add: after_move_head [OF ne] after_move_head [OF assms])
qed

lemma after_move_twice_second:
  assumes "2 \<le> length (snake_body s)"
  shows "pos (snake_body (after_move dx' dy' (after_move dx dy s)) ! 1)
           = (xpos (snake_body s ! 0) + dx, ypos (snake_body s ! 0) + dy)"
proof -
  have ne: "snake_body s \<noteq> []" using assms by auto
  have "pos (snake_body (after_move dx' dy' (after_move dx dy s)) ! 1)
          = pos (snake_body (after_move dx dy s) ! 0)"
    using assms after_move_follower_pos [of 1 "after_move dx dy s" dx' dy']
    by (simp add: after_move_fields)
  then show ?thesis by (simp add: after_move_head_pos [OF ne])
qed

lemma after_move_twice_rest:
  assumes "2 \<le> i" and "i < length (snake_body s)"
  shows "pos (snake_body (after_move dx' dy' (after_move dx dy s)) ! i)
           = pos (snake_body s ! (i - 2))"
proof -
  have "pos (snake_body (after_move dx' dy' (after_move dx dy s)) ! i)
          = pos (snake_body (after_move dx dy s) ! (i - 1))"
    using assms after_move_follower_pos [of i "after_move dx dy s" dx' dy']
    by (simp add: after_move_fields)
  also have "\<dots> = pos (snake_body s ! (i - 1 - 1))"
    using assms after_move_follower_pos [of "i - 1" s dx dy] by simp
  also have "i - 1 - 1 = i - 2" by simp
  finally show ?thesis .
qed

section \<open>Dispatching tokens and running token sequences\<close>

lemma perform_move_right: "perform_move ''right'' s = move_right s"
  by (simp add: perform_move_def)

lemma perform_move_left: "perform_move ''left'' s = move_left s"
  by (simp add: perform_move_def)

lemma perform_move_up: "perform_move ''up'' s = move_up s"
  by (simp add: perform_move_def)

lemma perform_move_down: "perform_move ''down'' s = move_down s"
  by (simp add: perform_move_def)

lemma perform_move_valid:
  assumes "valid_move move" and "snake_body s \<noteq> []"
  shows "\<exists>dx dy. perform_move move s = Inr (after_move dx dy s)"
proof -
  from assms(1) consider "move = ''right''" | "move = ''left''" | "move = ''up''" | "move = ''down''"
    unfolding valid_move_def by blast
  then show ?thesis
  proof cases
    case 1
    then show ?thesis
      using move_right_after_move [OF assms(2)] by (simp only: perform_move_right) blast
  next
    case 2
    then show ?thesis
      using move_left_after_move [OF assms(2)] by (simp only: perform_move_left) blast
  next
    case 3
    then show ?thesis
      using move_up_after_move [OF assms(2)] by (simp only: perform_move_up) blast
  next
    case 4
    then show ?thesis
      using move_down_after_move [OF assms(2)] by (simp only: perform_move_down) blast
  qed
qed

lemma perform_move_invalid:
  "\<not> valid_move move \<Longrightarrow> perform_move move s = Inl (Exception (''Invalid move: '' @ move), s)"
  by (simp add: valid_move_def perform_move_def)

lemma move_combo_single:
  "move_combo plot s [move] False = perform_move move s"
  by (simp split: sum.splits)

lemma move_combo_valid:
  assumes "\<forall>move\<in>set moves. valid_move move" and "snake_body s \<noteq> []"
  shows "\<exists>s'. move_combo plot s moves False = Inr s'
           \<and> length (snake_body s') = length (snake_body s)
           \<and> num_moves s' = num_moves s + int (length moves)"
  using assms
proof (induction moves arbitrary: s)
  case Nil
  then show ?case by simp
next
  case (Cons move moves)
  from Cons.prems obtain dx dy where pm: "perform_move move s = Inr (after_move dx dy s)"
    using perform_move_valid [of move s] by auto
  have ne: "snake_body (after_move dx dy s) \<noteq> []"
    using Cons.prems(2) by (rule after_move_nonempty)
  have "\<forall>m\<in>set moves. valid_move m" using Cons.prems(1) by simp
  from Cons.IH [OF this ne] obtain s' where
    "move_combo plot (after_move dx dy s) moves False = Inr s'"
    "length (snake_body s') = length (snake_body (after_move dx dy s))"
    "num_moves s' = num_moves (after_move dx dy s) + int (length moves)"
    by blast
  then show ?case by (simp add: pm after_move_fields)
qed

lemma move_combo_append:
  "move_combo plot s (xs @ ys) pm =
     (case move_combo plot s xs pm of
        Inl err \<Rightarrow> Inl err
      | Inr s' \<Rightarrow> move_combo plot s' ys pm)"
  by (induction xs arbitrary: s) (auto split: sum.splits option.splits)

lemma move_combo_first_invalid:
  assumes "\<forall>move\<in>set pre. valid_move move" and "\<not> valid_move bad" and "snake_body s \<noteq> []"
  shows "\<exists>s'. move_combo plot s pre False = Inr s'
           \<and> move_combo plot s (pre @ bad # rest) False
               = Inl (Exception (''Invalid move: '' @ bad), s')"
proof -
  from move_combo_valid [OF assms(1,3)] obtain s' where
    s': "move_combo plot s pre False = Inr s'" by blast
  have "move_combo plot s (pre @ bad # rest) False = move_combo plot s' (bad # rest) False"
    by (simp add: move_combo_append s')
  also have "\<dots> = Inl (Exception (''Invalid move: '' @ bad), s')"
    by (simp add: perform_move_invalid [OF assms(2)])
  finally show ?thesis using s' by simp
qed

lemma move_combo_count:
  assumes "snake_body s \<noteq> []"
  shows "num_moves (final_state (move_combo plot s moves False))
           = num_moves s + int (length (takeWhile valid_move moves))"
proof (cases "\<forall>move\<in>set moves. valid_move move")
  case True
  have tw: "takeWhile valid_move moves = moves"
    using True by simp
  from move_combo_valid [OF True assms, of plot] obtain s' where
    "move_combo plot s moves False = Inr s'" "num_moves s' = num_moves s + int (length moves)"
    by blast
  then show ?thesis by (simp add: final_state_def tw)
next
  case False
  then have "\<exists>move\<in>set moves. \<not> valid_move move" by simp
  from split_list_first_prop [OF this] obtain pre bad rest where
    sp: "moves = pre @ bad # rest" "\<not> valid_move bad" "\<forall>y\<in>set pre. \<not> \<not> valid_move y"
    by blast
  then have pre: "\<forall>move\<in>set pre. valid_move move" by simp
  then have tw: "takeWhile valid_move moves = pre"
    using sp(1,2) by (simp add: takeWhile_append2)
  from move_combo_valid [OF pre assms, of plot] obtain s' where
    s': "move_combo plot s pre False = Inr s'" "num_moves s' = num_moves s + int (length pre)"
    by blast
  from move_combo_first_invalid [OF pre sp(2) assms, of plot rest] s'(1)
  have "move_combo plot s moves False = Inl (Exception (''Invalid move: '' @ bad), s')"
    using sp(1) by auto
  then show ?thesis using s'(2) tw by (simp add: final_state_def)
qed

lemma move_combo_plot_silent:
  assumes "plot_moves \<longrightarrow> (\<forall>s. plot s = None)"
  shows "move_combo plot s moves plot_moves = move_combo plot s moves False"
proof (cases plot_moves)
  case True
  then have silent: "\<And>s. plot s = None" using assms by simp
  have "move_combo plot s moves True = move_combo plot s moves False"
    by (induction moves arbitrary: s) (simp_all add: silent split: sum.splits)
  then show ?thesis using True by simp
next
  case False
  then show ?thesis by simp
qed

lemma move_combo_invalid_token_default:
  assumes "snake_body s \<noteq> []"
  shows "((\<exists>msg s'. move_combo plot s moves False = Inl (Exception msg, s'))
            \<longleftrightarrow> (\<exists>move\<in>set moves. \<not> valid_move move))
       \<and> ((\<exists>s'. move_combo plot s moves False = Inr s')
            \<longleftrightarrow> (\<forall>move\<in>set moves. valid_move move))
       \<and> ((\<forall>move\<in>set pre. valid_move move) \<and> \<not> valid_move bad \<longrightarrow>
            (\<exists>s'. move_combo plot s pre False = Inr s'
               \<and> move_combo plot s (pre @ bad # rest) False
                   = Inl (Exception (''Invalid move: '' @ bad), s')))
       \<and> move_combo plot (Snake_init n) [''diagonal''] False
            = Inl (Exception ''Invalid move: diagonal'', Snake_init n)
       \<and> num_moves (Snake_init n) = 0"
proof -
  have all_valid: "\<exists>s'. move_combo plot s moves False = Inr s'"
    if "\<forall>move\<in>set moves. valid_move move"
    using move_combo_valid [OF that assms] by blast
  have some_invalid: "\<exists>msg s'. move_combo plot s moves False = Inl (Exception msg, s')"
    if "\<exists>move\<in>set moves. \<not> valid_move move"
  proof -
    from split_list_first_prop [OF that] obtain ys x zs where
      sp: "moves = ys @ x # zs" "\<not> valid_move x" "\<forall>y\<in>set ys. \<not> \<not> valid_move y"
      by blast
    then have "\<forall>y\<in>set ys. valid_move y" by simp
    from move_combo_first_invalid [OF this sp(2) assms, of plot zs] show ?thesis
      using sp(1) by blast
  qed
  have A: "(\<exists>msg s'. move_combo plot s moves False = Inl (Exception msg, s'))
            \<longleftrightarrow> (\<exists>move\<in>set moves. \<not> valid_move move)"
  proof
    assume raised: "\<exists>msg s'. move_combo plot s moves False = Inl (Exception msg, s')"
    show "\<exists>move\<in>set moves. \<not> valid_move move"
    proof (rule ccontr)
      assume "\<not> (\<exists>move\<in>set moves. \<not> valid_move move)"
      then have "\<forall>move\<in>set moves. valid_move move" by simp
      from all_valid [OF this] raised show False by auto
    qed
  next
    assume "\<exists>move\<in>set moves. \<not> valid_move move"
    then show "\<exists>msg s'. move_combo plot s moves False = Inl (Exception msg, s')"
      by (rule some_invalid)
  qed
  have B: "(\<exists>s'. move_combo plot s moves False = Inr s')
            \<longleftrightarrow> (\<forall>move\<in>set moves. valid_move move)"
  proof
    assume returned: "\<exists>s'. move_combo plot s moves False = Inr s'"
    show "\<forall>move\<in>set moves. valid_move move"
    proof (rule ccontr)
      assume "\<not> (\<forall>move\<in>set moves. valid_move move)"
      then have "\<exists>move\<in>set moves. \<not> valid_move move" by simp
      from some_invalid [OF this] returned show False by auto
    qed
  next
    assume "\<forall>move\<in>set moves. valid_move move"
    then show "\<exists>s'. move_combo plot s moves False = Inr s'"
      by (rule all_valid)
  qed
  have C: "(\<forall>move\<in>set pre. valid_move move) \<and> \<not> valid_move bad \<longrightarrow>
            (\<exists>s'. move_combo plot s pre False = Inr s'
               \<and> move_combo plot s (pre @ bad # rest) False
                   = Inl (Exception (''Invalid move: '' @ bad), s'))"
    using move_combo_first_invalid [of pre bad s plot rest] assms by blast
  have D: "move_combo plot (Snake_init n) [''diagonal''] False
            = Inl (Exception ''Invalid move: diagonal'', Snake_init n)"
    by (simp add: perform_move_def)
  have E: "num_moves (Snake_init n) = 0"
    by (simp add: Snake_init_def initialise_snake_body_def)
  from A B C D E show ?thesis by blast
qed

section \<open>The trailing invariant\<close>

text \<open>
  C1. On every chain of at least two segments, each of the four moves returns normally
  and leaves every segment \<open>i \<ge> 1\<close> on the position that segment \<open>i - 1\<close> held
  immediately before that move. The same holds along every sequence of valid moves:
  if \<open>s\<close> is the state after the first \<open>k\<close> tokens and \<open>s'\<close> the state after the
  next token, then the number of segments is still that of the start and segment \<open>i\<close>
  of \<open>s'\<close> is where segment \<open>i - 1\<close> of \<open>s\<close> was, for every \<open>i\<close> from 1 to the last
  index.
\<close>

theorem C1_trailing_invariant:
  assumes "2 \<le> length (snake_body s0)"
    and "\<forall>move\<in>set moves. valid_move move"
    and "k < length moves"
  shows "(\<forall>mv\<in>{move_right, move_left, move_up, move_down}.
            \<exists>s'. mv s0 = Inr s' \<and> length (snake_body s') = length (snake_body s0)
              \<and> (\<forall>i. 1 \<le> i \<and> i < length (snake_body s0) \<longrightarrow>
                    pos (snake_body s' ! i) = pos (snake_body s0 ! (i - 1))))
       \<and> (\<exists>s s'. move_combo plot s0 (take k moves) False = Inr s
              \<and> perform_move (moves ! k) s = Inr s'
              \<and> move_combo plot s0 (take (Suc k) moves) False = Inr s'
              \<and> length (snake_body s) = length (snake_body s0)
              \<and> length (snake_body s') = length (snake_body s0)
              \<and> (\<forall>i. 1 \<le> i \<and> i < length (snake_body s0) \<longrightarrow>
                    pos (snake_body s' ! i) = pos (snake_body s ! (i - 1))))"
proof -
  have ne0: "snake_body s0 \<noteq> []" using assms(1) by auto
  have direct: "\<exists>s'. mv s0 = Inr s' \<and> length (snake_body s') = length (snake_body s0)
              \<and> (\<forall>i. 1 \<le> i \<and> i < length (snake_body s0) \<longrightarrow>
                    pos (snake_body s' ! i) = pos (snake_body s0 ! (i - 1)))"
    if "mv \<in> {move_right, move_left, move_up, move_down}" for mv
  proof -
    from four_moves_cases [OF that ne0] obtain dx dy where
      "mv s0 = Inr (after_move dx dy s0)" by blast
    then show ?thesis
      by (simp add: after_move_fields after_move_follower_pos)
  qed
  have pre: "\<forall>move\<in>set (take k moves). valid_move move"
    using assms(2) by (auto dest: in_set_takeD)
  from move_combo_valid [OF pre ne0, of plot] obtain s where
    s: "move_combo plot s0 (take k moves) False = Inr s"
       "length (snake_body s) = length (snake_body s0)"
    by blast
  have ne: "snake_body s \<noteq> []" using s(2) ne0 by auto
  have "valid_move (moves ! k)" using assms(2,3) by simp
  from perform_move_valid [OF this ne] obtain dx dy where
    pm: "perform_move (moves ! k) s = Inr (after_move dx dy s)" by blast
  have "take (Suc k) moves = take k moves @ [moves ! k]"
    using assms(3) by (rule take_Suc_conv_app_nth)
  then have "move_combo plot s0 (take (Suc k) moves) False = Inr (after_move dx dy s)"
    by (simp only: move_combo_append s(1) sum.case move_combo_single pm)
  moreover have "\<forall>i. 1 \<le> i \<and> i < length (snake_body s0) \<longrightarrow>
      pos (snake_body (after_move dx dy s) ! i) = pos (snake_body s ! (i - 1))"
    using s(2) by (simp add: after_move_follower_pos)
  moreover have "length (snake_body (after_move dx dy s)) = length (snake_body s0)"
    using s(2) by (simp add: after_move_fields)
  ultimately have "\<exists>s s'. move_combo plot s0 (take k moves) False = Inr s
              \<and> perform_move (moves ! k) s = Inr s'
              \<and> move_combo plot s0 (take (Suc k) moves) False = Inr s'
              \<and> length (snake_body s) = length (snake_body s0)
              \<and> length (snake_body s') = length (snake_body s0)
              \<and> (\<forall>i. 1 \<le> i \<and> i < length (snake_body s0) \<longrightarrow>
                    pos (snake_body s' ! i) = pos (snake_body s ! (i - 1)))"
    using s pm by blast
  with direct show ?thesis by blast
qed

theorem C1_trailing_invariant_witness:
  "2 \<le> length (snake_body (Snake_init 3))
   \<and> valid_move ''right'' \<and> valid_move ''up''
   \<and> (1::nat) < length [''right'', ''up'']
   \<and> (\<exists>s s'. move_combo (\<lambda>s. None) (Snake_init 3) [''right''] False = Inr s
          \<and> move_combo (\<lambda>s. None) (Snake_init 3) [''right'', ''up''] False = Inr s'
          \<and> pos (snake_body s' ! 1) = pos (snake_body s ! 0)
          \<and> pos (snake_body s' ! 2) = pos (snake_body s ! 1))"
proof -
  have h1: "2 \<le> length (snake_body (Snake_init 3))" by (simp add: Snake_init_3)
  have v: "valid_move ''right''" "valid_move ''up''" by (simp_all add: valid_move_def)
  then have h2: "\<forall>move\<in>set [''right'', ''up'']. valid_move move" by simp
  have h3: "(1::nat) < length [''right'', ''up'']" by simp
  from C1_trailing_invariant [OF h1 h2 h3, of "\<lambda>s. None"] obtain s s' where
    a: "move_combo (\<lambda>s. None) (Snake_init 3) (take 1 [''right'', ''up'']) False = Inr s" and
    b: "move_combo (\<lambda>s. None) (Snake_init 3) (take (Suc 1) [''right'', ''up'']) False = Inr s'" and
    c: "\<forall>i. 1 \<le> i \<and> i < length (snake_body (Snake_init 3)) \<longrightarrow>
          pos (snake_body s' ! i) = pos (snake_body s ! (i - 1))"
    by blast
  have t: "take 1 [''right'', ''up''] = [''right'']"
          "take (Suc 1) [''right'', ''up''] = [''right'', ''up'']"
    by simp_all
  have len: "length (snake_body (Snake_init 3)) = 3" by (simp add: Snake_init_3)
  have "pos (snake_body s' ! 1) = pos (snake_body s ! 0)"
    using c [rule_format, of 1] len by simp
  moreover have "pos (snake_body s' ! 2) = pos (snake_body s ! 1)"
    using c [rule_format, of 2] len by simp
  ultimately show ?thesis
    using h1 v h3 a b unfolding t by blast
qed

section \<open>The in-place shift against the simultaneous assignment\<close>

text \<open>
  C2. The loop of \<^verbatim>\<open>update_body_positions\<close>, which walks the indices from the last one
  down to 1 and overwrites one segment at a time, computes exactly the simultaneous
  assignment: every segment after the head receives the position its predecessor had
  before the shift, and the head is left as it was. This holds for every list of
  segments, and so for every chain state.
\<close>

theorem C2_shift_refines_simultaneous:
  "update_loop (length body - 1) body = shift_simultaneous body
   \<and> update_body_positions s = s\<lparr>snake_body := shift_simultaneous (snake_body s)\<rparr>"
  by (simp only: update_loop_simultaneous update_body_positions_eq)

section \<open>The two scenarios on a chain of three\<close>

text \<open>
  C3. A freshly constructed chain of length 3 has the positions \<open>(0,0)\<close>, \<open>(0,-1)\<close>,
  \<open>(0,-2)\<close>, head first, and a move count of 0. Moving right gives \<open>(1,0)\<close>, \<open>(0,0)\<close>,
  \<open>(0,-1)\<close> with move count 1; moving up after that gives \<open>(1,1)\<close>, \<open>(1,0)\<close>, \<open>(0,0)\<close>
  with move count 2. Both calls return normally, and \<^verbatim>\<open>move_combo\<close> on the tokens
  \<^verbatim>\<open>right\<close> and \<^verbatim>\<open>right, up\<close> reaches the same two states.
\<close>

theorem C3_scenario_right_up:
  "positions (Snake_init 3) = [(0, 0), (0, - 1), (0, - 2)]
   \<and> num_moves (Snake_init 3) = 0
   \<and> (\<exists>s1 s2. move_right (Snake_init 3) = Inr s1
        \<and> move_combo plot (Snake_init 3) [''right''] False = Inr s1
        \<and> positions s1 = [(1, 0), (0, 0), (0, - 1)] \<and> num_moves s1 = 1
        \<and> move_up s1 = Inr s2
        \<and> move_combo plot (Snake_init 3) [''right'', ''up''] False = Inr s2
        \<and> positions s2 = [(1, 1), (1, 0), (0, 0)] \<and> num_moves s2 = 2)"
  by (simp add: Snake_init_3 positions_def pos_def move_right_def move_up_def
      update_body_positions_def perform_move_right perform_move_up)

section \<open>Invalid tokens in a token sequence\<close>

text \<open>
  C4. Take \<^verbatim>\<open>move_combo\<close> on a chain that has its head, either with \<^verbatim>\<open>plot_moves\<close> false
  (the default) or with drawing that does not itself raise. It raises the invalid-move
  exception exactly when the sequence holds a token other than \<^verbatim>\<open>right\<close>, \<^verbatim>\<open>left\<close>,
  \<^verbatim>\<open>up\<close>, \<^verbatim>\<open>down\<close>, and returns normally exactly when every token is one of the four.
  At the first invalid token \<open>bad\<close>, after the valid tokens \<open>pre\<close>, it raises
  \<^verbatim>\<open>Exception("Invalid move: " + bad)\<close>; the chain is then in exactly the state that
  running \<open>pre\<close> alone returns, whatever follows \<open>bad\<close>. On a freshly constructed chain
  the single token \<^verbatim>\<open>diagonal\<close> raises and leaves the chain as constructed, with a move
  count of 0.
\<close>

theorem C4_move_combo_invalid_token:
  assumes "snake_body s \<noteq> []" and "plot_moves \<longrightarrow> (\<forall>s. plot s = None)"
  shows "((\<exists>msg s'. move_combo plot s moves plot_moves = Inl (Exception msg, s'))
            \<longleftrightarrow> (\<exists>move\<in>set moves. \<not> valid_move move))
       \<and> ((\<exists>s'. move_combo plot s moves plot_moves = Inr s')
            \<longleftrightarrow> (\<forall>move\<in>set moves. valid_move move))
       \<and> ((\<forall>move\<in>set pre. valid_move move) \<and> \<not> valid_move bad \<longrightarrow>
            (\<exists>s'. move_combo plot s pre plot_moves = Inr s'
               \<and> move_combo plot s (pre @ bad # rest) plot_moves
                   = Inl (Exception (''Invalid move: '' @ bad), s')))
       \<and> move_combo plot (Snake_init n) [''diagonal''] plot_moves
            = Inl (Exception ''Invalid move: diagonal'', Snake_init n)
       \<and> num_moves (Snake_init n) = 0"
  unfolding move_combo_plot_silent [OF assms(2)]
  using move_combo_invalid_token_default [OF assms(1)] by blast

theorem C4_move_combo_invalid_token_witness:
  "snake_body (Snake_init 3) \<noteq> []
   \<and> valid_move ''right'' \<and> \<not> valid_move ''diagonal''
   \<and> (\<exists>move\<in>set [''right'', ''diagonal'', ''up'']. \<not> valid_move move)
   \<and> (\<exists>s'. move_combo (\<lambda>s. None) (Snake_init 3) [''right''] True = Inr s'
          \<and> move_combo (\<lambda>s. None) (Snake_init 3) ([''right''] @ ''diagonal'' # [''up'']) True
              = Inl (Exception (''Invalid move: '' @ ''diagonal''), s'))"
proof -
  have h: "snake_body (Snake_init 3) \<noteq> []"
    by (simp add: Snake_init_3)
  have p: "True \<longrightarrow> (\<forall>s::Snake. (\<lambda>s. None :: error option) s = None)"
    by simp
  have v: "(\<forall>move\<in>set [''right'']. valid_move move) \<and> \<not> valid_move ''diagonal''"
    by (simp add: valid_move_def)
  have i: "\<exists>move\<in>set [''right'', ''diagonal'', ''up'']. \<not> valid_move move"
    by (simp add: valid_move_def)
  from C4_move_combo_invalid_token
         [OF h p, where pre = "[''right'']" and bad = "''diagonal''" and rest = "[''up'']"]
       v
  have "\<exists>s'. move_combo (\<lambda>s. None) (Snake_init 3) [''right''] True = Inr s'
          \<and> move_combo (\<lambda>s. None) (Snake_init 3) ([''right''] @ ''diagonal'' # [''up'']) True
              = Inl (Exception (''Invalid move: '' @ ''diagonal''), s')"
    by blast
  moreover have "valid_move ''right''" using v by simp
  ultimately show ?thesis using h v i by blast
qed

section \<open>Which segments a move displaces\<close>

text \<open>
  C5, as stated, says that exactly one segment, the head, has its coordinates changed
  by a unit vector. On the freshly constructed chain of three, whose segments lie one
  unit apart, \<^verbatim>\<open>move_up\<close> displaces all three segments by the unit vector \<open>(0, 1)\<close>: the
  segments displaced by a unit vector are those at the indices 0, 1 and 2, not one
  segment.
\<close>

theorem C5_unit_displacements_counterexample:
  "move_up (Snake_init 3)
     = Inr \<lparr>snake_length = 3, num_moves = 1,
            snake_body = [\<lparr>ID = 0, xpos = 0, ypos = 1, is_head = True\<rparr>,
                          \<lparr>ID = 1, xpos = 0, ypos = 0, is_head = False\<rparr>,
                          \<lparr>ID = 2, xpos = 0, ypos = - 1, is_head = False\<rparr>]\<rparr>
   \<and> unit_displaced (Snake_init 3) (final_state (move_up (Snake_init 3))) = [0, 1, 2]
   \<and> length (unit_displaced (Snake_init 3) (final_state (move_up (Snake_init 3)))) \<noteq> 1"
proof -
  have mv: "move_up (Snake_init 3)
     = Inr \<lparr>snake_length = 3, num_moves = 1,
            snake_body = [\<lparr>ID = 0, xpos = 0, ypos = 1, is_head = True\<rparr>,
                          \<lparr>ID = 1, xpos = 0, ypos = 0, is_head = False\<rparr>,
                          \<lparr>ID = 2, xpos = 0, ypos = - 1, is_head = False\<rparr>]\<rparr>"
    by (simp add: Snake_init_3 move_up_def update_body_positions_def)
  have up: "[0..<3] = [0, 1, 2]" by (simp add: upt_rec)
  have ud: "unit_displaced (Snake_init 3) (final_state (move_up (Snake_init 3))) = [0, 1, 2]"
    unfolding mv by (simp add: unit_displaced_def final_state_def Snake_init_3 up
        displacement_def unit_vector_def)
  show ?thesis using mv ud by simp
qed

text \<open>
  C5, amended. On every chain of at least two segments each move returns normally; the
  head's coordinates change by exactly the unit vector of the move (\<open>(1, 0)\<close> for right,
  \<open>(-1, 0)\<close> for left, \<open>(0, 1)\<close> for up, \<open>(0, -1)\<close> for down); every other segment's
  coordinates become those its predecessor held before the move, and they coincide with
  its own earlier coordinates exactly when it lay on its predecessor. Nothing is said
  about how many segments end up displaced by a unit vector.
\<close>

theorem C5_head_displacement_amended:
  assumes "2 \<le> length (snake_body s)"
  shows "\<exists>sr sl su sd.
           move_right s = Inr sr \<and> move_left s = Inr sl
         \<and> move_up s = Inr su \<and> move_down s = Inr sd
         \<and> pos (snake_body sr ! 0) = (xpos (snake_body s ! 0) + 1, ypos (snake_body s ! 0))
         \<and> pos (snake_body sl ! 0) = (xpos (snake_body s ! 0) - 1, ypos (snake_body s ! 0))
         \<and> pos (snake_body su ! 0) = (xpos (snake_body s ! 0), ypos (snake_body s ! 0) + 1)
         \<and> pos (snake_body sd ! 0) = (xpos (snake_body s ! 0), ypos (snake_body s ! 0) - 1)
         \<and> (\<forall>s'\<in>{sr, sl, su, sd}.
               length (snake_body s') = length (snake_body s)
             \<and> (\<forall>i. 1 \<le> i \<and> i < length (snake_body s) \<longrightarrow>
                   pos (snake_body s' ! i) = pos (snake_body s ! (i - 1))
                 \<and> (pos (snake_body s' ! i) = pos (snake_body s ! i)
                      \<longleftrightarrow> pos (snake_body s ! i) = pos (snake_body s ! (i - 1)))))"
proof -
  have ne: "snake_body s \<noteq> []" using assms by auto
  have others: "length (snake_body (after_move dx dy s)) = length (snake_body s)
             \<and> (\<forall>i. 1 \<le> i \<and> i < length (snake_body s) \<longrightarrow>
                   pos (snake_body (after_move dx dy s) ! i) = pos (snake_body s ! (i - 1))
                 \<and> (pos (snake_body (after_move dx dy s) ! i) = pos (snake_body s ! i)
                      \<longleftrightarrow> pos (snake_body s ! i) = pos (snake_body s ! (i - 1))))"
    for dx dy
    by (auto simp add: after_move_fields after_move_follower_pos)
  have heads:
    "pos (snake_body (after_move 1 0 s) ! 0) = (xpos (snake_body s ! 0) + 1, ypos (snake_body s ! 0))"
    "pos (snake_body (after_move (- 1) 0 s) ! 0) = (xpos (snake_body s ! 0) - 1, ypos (snake_body s ! 0))"
    "pos (snake_body (after_move 0 1 s) ! 0) = (xpos (snake_body s ! 0), ypos (snake_body s ! 0) + 1)"
    "pos (snake_body (after_move 0 (- 1) s) ! 0) = (xpos (snake_body s ! 0), ypos (snake_body s ! 0) - 1)"
    using ne by (simp_all add: after_move_head_pos)
  have all: "\<forall>s'\<in>{after_move 1 0 s, after_move (- 1) 0 s, after_move 0 1 s, after_move 0 (- 1) s}.
               length (snake_body s') = length (snake_body s)
             \<and> (\<forall>i. 1 \<le> i \<and> i < length (snake_body s) \<longrightarrow>
                   pos (snake_body s' ! i) = pos (snake_body s ! (i - 1))
                 \<and> (pos (snake_body s' ! i) = pos (snake_body s ! i)
                      \<longleftrightarrow> pos (snake_body s ! i) = pos (snake_body s ! (i - 1))))"
    using others by blast
  show ?thesis
    using move_right_after_move [OF ne] move_left_after_move [OF ne]
      move_up_after_move [OF ne] move_down_after_move [OF ne] heads all
    by blast
qed

theorem C5_head_displacement_amended_witness:
  "2 \<le> length (snake_body (Snake_init 3))
   \<and> (\<exists>sr. move_right (Snake_init 3) = Inr sr
          \<and> pos (snake_body sr ! 0) = (1, 0)
          \<and> pos (snake_body sr ! 1) = (0, 0)
          \<and> pos (snake_body sr ! 2) = (0, - 1))"
proof -
  have h: "2 \<le> length (snake_body (Snake_init 3))" by (simp add: Snake_init_3)
  from C5_head_displacement_amended [OF h] obtain sr where
    a: "move_right (Snake_init 3) = Inr sr" and
    b: "pos (snake_body sr ! 0)
          = (xpos (snake_body (Snake_init 3) ! 0) + 1, ypos (snake_body (Snake_init 3) ! 0))" and
    c: "\<forall>i. 1 \<le> i \<and> i < length (snake_body (Snake_init 3)) \<longrightarrow>
          pos (snake_body sr ! i) = pos (snake_body (Snake_init 3) ! (i - 1))"
    by blast
  have "pos (snake_body sr ! 0) = (1, 0)"
    using b by (simp add: Snake_init_3)
  moreover have "pos (snake_body sr ! 1) = (0, 0)"
    using c [rule_format, of 1] by (simp add: Snake_init_3 pos_def)
  moreover have "pos (snake_body sr ! 2) = (0, - 1)"
    using c [rule_format, of 2] by (simp add: Snake_init_3 pos_def)
  ultimately show ?thesis using h a by blast
qed

section \<open>A move followed by the opposite move\<close>

text \<open>
  C6, as stated, says that \<^verbatim>\<open>move_right\<close> followed by \<^verbatim>\<open>move_left\<close>, or \<^verbatim>\<open>move_up\<close> followed by
  \<^verbatim>\<open>move_down\<close>, restores the exact state of the chain. On the freshly constructed chain
  of three neither pair does: the positions \<open>(0,0)\<close>, \<open>(0,-1)\<close>, \<open>(0,-2)\<close> become
  \<open>(0,0)\<close>, \<open>(1,0)\<close>, \<open>(0,0)\<close> after right and left, and \<open>(0,0)\<close>, \<open>(0,1)\<close>, \<open>(0,0)\<close>
  after up and down, and the move count is 2 instead of 0.
\<close>

theorem C6_no_op_pairs_counterexample:
  "and_then (move_right (Snake_init 3)) move_left \<noteq> Inr (Snake_init 3)
   \<and> and_then (move_up (Snake_init 3)) move_down \<noteq> Inr (Snake_init 3)
   \<and> positions (Snake_init 3) = [(0, 0), (0, - 1), (0, - 2)]
   \<and> num_moves (Snake_init 3) = 0
   \<and> positions (final_state (and_then (move_right (Snake_init 3)) move_left))
       = [(0, 0), (1, 0), (0, 0)]
   \<and> num_moves (final_state (and_then (move_right (Snake_init 3)) move_left)) = 2
   \<and> positions (final_state (and_then (move_up (Snake_init 3)) move_down))
       = [(0, 0), (0, 1), (0, 0)]
   \<and> num_moves (final_state (and_then (move_up (Snake_init 3)) move_down)) = 2"
  by (simp add: Snake_init_3 and_then_def move_right_def move_left_def move_up_def
      move_down_def update_body_positions_def final_state_def positions_def pos_def)

text \<open>
  C6, amended. On every chain that has its head, \<^verbatim>\<open>move_right\<close> followed by \<^verbatim>\<open>move_left\<close>,
  and \<^verbatim>\<open>move_up\<close> followed by \<^verbatim>\<open>move_down\<close>, both return normally and restore the head
  segment exactly; the number of segments and the stored length are as before. The rest
  of the state is not restored: the move count is larger by 2, segment 1 (if there is
  one) lies where the head was between the two moves, and every segment \<open>i \<ge> 2\<close> lies
  where segment \<open>i - 2\<close> was before the pair.
\<close>

theorem C6_no_op_pairs_amended:
  assumes "snake_body s \<noteq> []"
  shows "(\<exists>s'. and_then (move_right s) move_left = Inr s'
            \<and> snake_body s' ! 0 = snake_body s ! 0
            \<and> num_moves s' = num_moves s + 2
            \<and> snake_length s' = snake_length s
            \<and> length (snake_body s') = length (snake_body s)
            \<and> (2 \<le> length (snake_body s) \<longrightarrow>
                 pos (snake_body s' ! 1)
                   = (xpos (snake_body s ! 0) + 1, ypos (snake_body s ! 0)))
            \<and> (\<forall>i. 2 \<le> i \<and> i < length (snake_body s) \<longrightarrow>
                 pos (snake_body s' ! i) = pos (snake_body s ! (i - 2))))
       \<and> (\<exists>s'. and_then (move_up s) move_down = Inr s'
            \<and> snake_body s' ! 0 = snake_body s ! 0
            \<and> num_moves s' = num_moves s + 2
            \<and> snake_length s' = snake_length s
            \<and> length (snake_body s') = length (snake_body s)
            \<and> (2 \<le> length (snake_body s) \<longrightarrow>
                 pos (snake_body s' ! 1)
                   = (xpos (snake_body s ! 0), ypos (snake_body s ! 0) + 1))
            \<and> (\<forall>i. 2 \<le> i \<and> i < length (snake_body s) \<longrightarrow>
                 pos (snake_body s' ! i) = pos (snake_body s ! (i - 2))))"
proof -
  have ne: "snake_body (after_move dx dy s) \<noteq> []" for dx dy
    using assms by (rule after_move_nonempty)
  have rl: "and_then (move_right s) move_left = Inr (after_move (- 1) 0 (after_move 1 0 s))"
    by (simp add: and_then_def move_right_after_move [OF assms] move_left_after_move [OF ne])
  have ud: "and_then (move_up s) move_down = Inr (after_move 0 (- 1) (after_move 0 1 s))"
    by (simp add: and_then_def move_up_after_move [OF assms] move_down_after_move [OF ne])
  have h1: "snake_body (after_move (- 1) 0 (after_move 1 0 s)) ! 0 = snake_body s ! 0"
    using after_move_twice_head [OF assms, of 1 0] by simp
  have h2: "snake_body (after_move 0 (- 1) (after_move 0 1 s)) ! 0 = snake_body s ! 0"
    using after_move_twice_head [OF assms, of 0 1] by simp
  have sec1: "2 \<le> length (snake_body s) \<longrightarrow>
      pos (snake_body (after_move (- 1) 0 (after_move 1 0 s)) ! 1)
        = (xpos (snake_body s ! 0) + 1, ypos (snake_body s ! 0))"
    using after_move_twice_second [of s "- 1" 0 1 0] by simp
  have sec2: "2 \<le> length (snake_body s) \<longrightarrow>
      pos (snake_body (after_move 0 (- 1) (after_move 0 1 s)) ! 1)
        = (xpos (snake_body s ! 0), ypos (snake_body s ! 0) + 1)"
    using after_move_twice_second [of s 0 "- 1" 0 1] by simp
  have rest: "\<forall>i. 2 \<le> i \<and> i < length (snake_body s) \<longrightarrow>
      pos (snake_body (after_move dx' dy' (after_move dx dy s)) ! i) = pos (snake_body s ! (i - 2))"
    for dx dy dx' dy'
    using after_move_twice_rest by blast
  have fields: "num_moves (after_move dx' dy' (after_move dx dy s)) = num_moves s + 2
     \<and> snake_length (after_move dx' dy' (after_move dx dy s)) = snake_length s
     \<and> length (snake_body (after_move dx' dy' (after_move dx dy s))) = length (snake_body s)"
    for dx dy dx' dy'
    by (simp add: after_move_fields)
  show ?thesis
    unfolding rl ud using h1 h2 sec1 sec2 rest fields by blast
qed

theorem C6_no_op_pairs_amended_witness:
  "snake_body (Snake_init 3) \<noteq> []
   \<and> (\<exists>s'. and_then (move_right (Snake_init 3)) move_left = Inr s'
          \<and> snake_body s' ! 0 = \<lparr>ID = 0, xpos = 0, ypos = 0, is_head = True\<rparr>
          \<and> num_moves s' = 2
          \<and> pos (snake_body s' ! 1) = (1, 0)
          \<and> pos (snake_body s' ! 2) = (0, 0))"
proof -
  have h: "snake_body (Snake_init 3) \<noteq> []" by (simp add: Snake_init_3)
  from C6_no_op_pairs_amended [OF h] obtain s' where
    a: "and_then (move_right (Snake_init 3)) move_left = Inr s'" and
    b: "snake_body s' ! 0 = snake_body (Snake_init 3) ! 0" and
    c: "num_moves s' = num_moves (Snake_init 3) + 2" and
    d: "2 \<le> length (snake_body (Snake_init 3)) \<longrightarrow>
          pos (snake_body s' ! 1)
            = (xpos (snake_body (Snake_init 3) ! 0) + 1, ypos (snake_body (Snake_init 3) ! 0))" and
    e: "\<forall>i. 2 \<le> i \<and> i < length (snake_body (Snake_init 3)) \<longrightarrow>
          pos (snake_body s' ! i) = pos (snake_body (Snake_init 3) ! (i - 2))"
    by blast
  have "snake_body s' ! 0 = \<lparr>ID = 0, xpos = 0, ypos = 0, is_head = True\<rparr>"
    using b by (simp add: Snake_init_3)
  moreover have "num_moves s' = 2" using c by (simp add: Snake_init_3)
  moreover have "pos (snake_body s' ! 1) = (1, 0)" using d by (simp add: Snake_init_3)
  moreover have "pos (snake_body s' ! 2) = (0, 0)"
    using e [rule_format, of 2] by (simp add: Snake_init_3 pos_def)
  ultimately show ?thesis using h a by blast
qed

section \<open>The move counter\<close>

text \<open>
  C7. The move count is 0 after construction. On a chain that has its head, each of the
  four moves returns normally with the count increased by exactly 1, whatever the
  direction. A token that is not one of the four is rejected with the chain, and so
  the count, exactly as it was. Over a whole token sequence the count therefore grows by
  the number of valid tokens that precede the first invalid one.
\<close>

theorem C7_move_counter:
  "num_moves (Snake_init n) = 0
   \<and> (snake_body s \<noteq> [] \<longrightarrow>
         (\<exists>s'. move_right s = Inr s' \<and> num_moves s' = num_moves s + 1)
       \<and> (\<exists>s'. move_left s = Inr s' \<and> num_moves s' = num_moves s + 1)
       \<and> (\<exists>s'. move_up s = Inr s' \<and> num_moves s' = num_moves s + 1)
       \<and> (\<exists>s'. move_down s = Inr s' \<and> num_moves s' = num_moves s + 1)
       \<and> num_moves (final_state (move_combo plot s moves False))
           = num_moves s + int (length (takeWhile valid_move moves)))
   \<and> (\<not> valid_move move \<longrightarrow>
         perform_move move s = Inl (Exception (''Invalid move: '' @ move), s))"
proof -
  have single: "(\<exists>s'. move_right s = Inr s' \<and> num_moves s' = num_moves s + 1)
       \<and> (\<exists>s'. move_left s = Inr s' \<and> num_moves s' = num_moves s + 1)
       \<and> (\<exists>s'. move_up s = Inr s' \<and> num_moves s' = num_moves s + 1)
       \<and> (\<exists>s'. move_down s = Inr s' \<and> num_moves s' = num_moves s + 1)"
    if "snake_body s \<noteq> []"
    by (simp add: move_right_after_move [OF that] move_left_after_move [OF that]
        move_up_after_move [OF that] move_down_after_move [OF that] after_move_fields)
  from single move_combo_count [of s plot moves] perform_move_invalid [of move s]
    Snake_init_fields(1) [of n]
  show ?thesis by blast
qed

theorem C7_move_counter_witness:
  "snake_body (Snake_init 3) \<noteq> [] \<and> \<not> valid_move ''diagonal''
   \<and> (\<exists>s'. move_left (Snake_init 3) = Inr s' \<and> num_moves s' = 1)
   \<and> num_moves (final_state
        (move_combo (\<lambda>s. None) (Snake_init 3) [''up'', ''left'', ''diagonal'', ''down''] False)) = 2
   \<and> perform_move ''diagonal'' (Snake_init 3)
       = Inl (Exception ''Invalid move: diagonal'', Snake_init 3)"
proof -
  have h: "snake_body (Snake_init 3) \<noteq> []" by (simp add: Snake_init_3)
  have v: "\<not> valid_move ''diagonal''" by (simp add: valid_move_def)
  have z: "num_moves (Snake_init 3) = 0" by (simp add: Snake_init_3)
  from C7_move_counter [of 3 "Snake_init 3" "\<lambda>s. None"
         "[''up'', ''left'', ''diagonal'', ''down'']" "''diagonal''"] h v
  show ?thesis by (simp add: z valid_move_def del: move_combo.simps)
qed

section \<open>The initial layout\<close>

text \<open>
  C8. For every requested length \<open>n \<ge> 1\<close> the constructor builds exactly \<open>n\<close> segments:
  index 0 is the head, with id 0, at \<open>(0, 0)\<close>, flagged as head; every index \<open>i\<close> from 1
  to \<open>n - 1\<close> holds the segment with id \<open>i\<close>, not flagged as head, at \<open>(0, -i)\<close>. The
  move count is 0 and the stored length is \<open>n\<close>.
\<close>

theorem C8_initial_layout:
  assumes "1 \<le> n"
  shows "length (snake_body (Snake_init n)) = nat n
       \<and> snake_body (Snake_init n) ! 0 = \<lparr>ID = 0, xpos = 0, ypos = 0, is_head = True\<rparr>
       \<and> (\<forall>i. 1 \<le> i \<and> i < nat n \<longrightarrow>
             snake_body (Snake_init n) ! i
               = \<lparr>ID = int i, xpos = 0, ypos = - int i, is_head = False\<rparr>)
       \<and> num_moves (Snake_init n) = 0
       \<and> snake_length (Snake_init n) = n"
proof -
  have len: "length (snake_body (Snake_init n)) = nat n"
    using assms by (simp add: Snake_init_body)
  have hd: "snake_body (Snake_init n) ! 0 = \<lparr>ID = 0, xpos = 0, ypos = 0, is_head = True\<rparr>"
    by (simp add: Snake_init_body)
  have rest: "snake_body (Snake_init n) ! i
               = \<lparr>ID = int i, xpos = 0, ypos = - int i, is_head = False\<rparr>"
    if "1 \<le> i" "i < nat n" for i
  proof -
    from that(1) obtain k where k: "i = Suc k" by (cases i) auto
    have "1 + int k \<le> n - 1" using that(2) k by simp
    then have "[1..n - 1] ! k = 1 + int k" by (rule nth_upto)
    moreover have "k < length [1..n - 1]" using that(2) k by simp
    ultimately show ?thesis by (simp add: Snake_init_body k)
  qed
  from len hd rest Snake_init_fields show ?thesis by blast
qed

theorem C8_initial_layout_witness:
  "(1::int) \<le> 3
   \<and> length (snake_body (Snake_init 3)) = 3
   \<and> snake_body (Snake_init 3) ! 0 = \<lparr>ID = 0, xpos = 0, ypos = 0, is_head = True\<rparr>
   \<and> snake_body (Snake_init 3) ! 1 = \<lparr>ID = 1, xpos = 0, ypos = - 1, is_head = False\<rparr>
   \<and> snake_body (Snake_init 3) ! 2 = \<lparr>ID = 2, xpos = 0, ypos = - 2, is_head = False\<rparr>
   \<and> num_moves (Snake_init 3) = 0"
proof -
  have h: "(1::int) \<le> 3" by simp
  have a: "(1::nat) \<le> 1 \<and> 1 < nat 3" "(1::nat) \<le> 2 \<and> 2 < nat 3" by simp_all
  from C8_initial_layout [OF h] a h show ?thesis
    by (metis int_ops(2) of_nat_numeral nat_numeral)
qed

section \<open>Requested lengths of at most one\<close>

text \<open>
  C9. For every requested length \<open>n \<le> 1\<close>, zero and negative values included, the
  constructor still builds a chain of exactly one segment: the head with id 0 at
  \<open>(0, 0)\<close>. On any chain of a single segment the body shift changes nothing, and each of
  the four moves returns normally, translates the head by its unit vector and adds 1 to
  the move count.
\<close>

theorem C9_degenerate_length:
  assumes "n \<le> 1"
  shows "snake_body (Snake_init n) = [\<lparr>ID = 0, xpos = 0, ypos = 0, is_head = True\<rparr>]
       \<and> (snake_body s = [h] \<longrightarrow>
            update_body_positions s = s
          \<and> move_right s
              = Inr (s\<lparr>num_moves := num_moves s + 1, snake_body := [h\<lparr>xpos := xpos h + 1\<rparr>]\<rparr>)
          \<and> move_left s
              = Inr (s\<lparr>num_moves := num_moves s + 1, snake_body := [h\<lparr>xpos := xpos h - 1\<rparr>]\<rparr>)
          \<and> move_up s
              = Inr (s\<lparr>num_moves := num_moves s + 1, snake_body := [h\<lparr>ypos := ypos h + 1\<rparr>]\<rparr>)
          \<and> move_down s
              = Inr (s\<lparr>num_moves := num_moves s + 1, snake_body := [h\<lparr>ypos := ypos h - 1\<rparr>]\<rparr>))"
proof -
  have body: "snake_body (Snake_init n) = [\<lparr>ID = 0, xpos = 0, ypos = 0, is_head = True\<rparr>]"
    using assms by (simp add: Snake_init_body)
  have moves: "update_body_positions s = s
          \<and> move_right s
              = Inr (s\<lparr>num_moves := num_moves s + 1, snake_body := [h\<lparr>xpos := xpos h + 1\<rparr>]\<rparr>)
          \<and> move_left s
              = Inr (s\<lparr>num_moves := num_moves s + 1, snake_body := [h\<lparr>xpos := xpos h - 1\<rparr>]\<rparr>)
          \<and> move_up s
              = Inr (s\<lparr>num_moves := num_moves s + 1, snake_body := [h\<lparr>ypos := ypos h + 1\<rparr>]\<rparr>)
          \<and> move_down s
              = Inr (s\<lparr>num_moves := num_moves s + 1, snake_body := [h\<lparr>ypos := ypos h - 1\<rparr>]\<rparr>)"
    if single: "snake_body s = [h]"
    using single
    by (simp add: update_body_positions_single [OF single] move_right_def move_left_def
        move_up_def move_down_def)
  from body moves show ?thesis by blast
qed

theorem C9_degenerate_length_witness:
  "(0::int) \<le> 1
   \<and> snake_body (Snake_init 0) = [\<lparr>ID = 0, xpos = 0, ypos = 0, is_head = True\<rparr>]
   \<and> update_body_positions (Snake_init 0) = Snake_init 0
   \<and> move_right (Snake_init 0)
       = Inr \<lparr>snake_length = 0, num_moves = 1,
              snake_body = [\<lparr>ID = 0, xpos = 1, ypos = 0, is_head = True\<rparr>]\<rparr>
   \<and> move_down (Snake_init 0)
       = Inr \<lparr>snake_length = 0, num_moves = 1,
              snake_body = [\<lparr>ID = 0, xpos = 0, ypos = - 1, is_head = True\<rparr>]\<rparr>"
proof -
  have h: "(0::int) \<le> 1" by simp
  have s0: "Snake_init 0 = \<lparr>snake_length = 0, num_moves = 0,
              snake_body = [\<lparr>ID = 0, xpos = 0, ypos = 0, is_head = True\<rparr>]\<rparr>"
    by (simp add: Snake_init_def initialise_snake_body_def initialise_loop.simps
        SnakeBodyPart_init_def)
  from C9_degenerate_length
         [OF h, of "Snake_init 0" "\<lparr>ID = 0, xpos = 0, ypos = 0, is_head = True\<rparr>"]
  show ?thesis using h by (simp add: s0)
qed

section \<open>What a move leaves alone\<close>

text \<open>
  C10. Whichever of the four moves is called, and on whatever chain, the object afterwards
  has the same number of segments, the same stored length, and for every segment the
  same id and the same head flag as before; only positions and the move count can
  differ. On a chain that has its head the call returns normally.
\<close>

theorem C10_frame:
  assumes "mv \<in> {move_right, move_left, move_up, move_down}"
  shows "length (snake_body (final_state (mv s))) = length (snake_body s)
       \<and> snake_length (final_state (mv s)) = snake_length s
       \<and> map ID (snake_body (final_state (mv s))) = map ID (snake_body s)
       \<and> map is_head (snake_body (final_state (mv s))) = map is_head (snake_body s)
       \<and> (snake_body s \<noteq> [] \<longrightarrow> (\<exists>s'. mv s = Inr s'))"
proof (cases "snake_body s = []")
  case True
  show ?thesis
    using True by (simp add: four_moves_empty [OF assms True] final_state_def)
next
  case False
  from four_moves_cases [OF assms False] obtain dx dy where
    "mv s = Inr (after_move dx dy s)" by blast
  then show ?thesis
    by (simp add: final_state_def after_move_fields after_move_IDs after_move_is_heads)
qed

theorem C10_frame_witness:
  "move_up \<in> {move_right, move_left, move_up, move_down}
   \<and> length (snake_body (final_state (move_up (Snake_init 3)))) = length (snake_body (Snake_init 3))
   \<and> snake_length (final_state (move_up (Snake_init 3))) = 3
   \<and> map ID (snake_body (final_state (move_up (Snake_init 3)))) = [0, 1, 2]
   \<and> map is_head (snake_body (final_state (move_up (Snake_init 3)))) = [True, False, False]"
proof -
  have h: "move_up \<in> {move_right, move_left, move_up, move_down}" by simp
  from C10_frame [OF h, of "Snake_init 3"] h show ?thesis
    by (simp add: Snake_init_3)
qed

end
